theory Spec2Isabelle
  imports Complex_Main "HOL-Library.Multiset"
begin

section \<open>Strings of the page script\<close>

text \<open>
  The visualizer is a page script (JavaScript over D3 version 4). Its strings are
  modelled as \<^typ>\<open>string\<close>. The only separators it splits on are the ASCII
  characters \<open>=\<close> and \<open>.\<close>, which never occur inside a multi-byte character, so
  splitting bytes and splitting UTF-16 code units give the same tokens.
\<close>

text \<open>\<^verbatim>\<open>s.split(c)\<close> for a one-character separator: the tokens between the
  occurrences of \<open>c\<close>, in order; a string without \<open>c\<close> (also the empty string) is
  its own single token.\<close>

fun split :: "string \<Rightarrow> char \<Rightarrow> string list" where
  "split [] c = [[]]"
| "split (x # xs) c =
     (if x = c then [] # split xs c
      else (case split xs c of
              [] \<Rightarrow> [[x]]
            | t # ts \<Rightarrow> (x # t) # ts))"

text \<open>\<^verbatim>\<open>a[i]\<close> on an array: \<open>undefined\<close> (here \<open>None\<close>) out of range, never an
  exception.\<close>

definition index :: "'a list \<Rightarrow> nat \<Rightarrow> 'a option" where
  "index a i = (if i < length a then Some (a ! i) else None)"

text \<open>\<^verbatim>\<open>s.substring(1)\<close>: the string without its first character; the empty
  string stays empty.\<close>

definition substring1 :: "string \<Rightarrow> string" where
  "substring1 s = drop 1 s"

text \<open>\<^verbatim>\<open>s.startsWith(p)\<close>.\<close>

definition startsWith :: "string \<Rightarrow> string \<Rightarrow> bool" where
  "startsWith s p = (take (length p) s = p)"

text \<open>Line 38: \<^verbatim>\<open>var file = window.location.search.substring(1).split("=")[1]\<close>.\<close>

definition file_param :: "string \<Rightarrow> string option" where
  "file_param search = index (split (substring1 search) (CHR ''='')) 1"

section \<open>The fetched tree and the D3 hierarchy\<close>

text \<open>
  A node of the fetched JSON document: \<open>name\<close> and \<open>color\<close> are strings, and the
  \<open>children\<close> key is absent (\<open>None\<close>) or holds an array of nodes (possibly empty).
\<close>

datatype tree_data =
  TreeData (name: string) (color: string) (children: "tree_data list option")

text \<open>
  A node of the D3 hierarchy: the datum it wraps, its depth, the coordinates the
  layout writes into it (\<open>()\<close> before the layout ran, the pair \<open>(x, y)\<close> after), and
  its \<open>children\<close> property. D3 is a library the page loads from the network; its
  behaviour is written here as the library documents it.
\<close>

datatype 'p hnode =
  HNode (data: tree_data) (depth: nat) (pos: 'p) (children: "'p hnode list option")

text \<open>
  Lines 54 to 56: \<^verbatim>\<open>d3.hierarchy(treeData, function(d) { return d.children; })\<close>.
  The accessor of the page returns the datum's \<open>children\<close>; D3 gives a node a
  \<open>children\<close> property only when the accessor returns an array of non-zero length.
  The first argument is the depth of the node being built.
\<close>

fun hierarchy :: "nat \<Rightarrow> tree_data \<Rightarrow> unit hnode" where
  "hierarchy k (TreeData n c ch) =
     HNode (TreeData n c ch) k ()
       (case ch of
          None \<Rightarrow> None
        | Some childs \<Rightarrow>
            (if length childs = 0 then None
             else Some (map (hierarchy (Suc k)) childs)))"

text \<open>
  Line 60: \<^verbatim>\<open>nodes = treemap(nodes)\<close>. The tree layout writes \<open>x\<close> and \<open>y\<close> into
  every node and changes nothing else. Which coordinates it computes is left open:
  the layout is a parameter \<open>lay\<close> giving the pair \<open>(x, y)\<close> of the node reached from
  the root by a path of child indices.
\<close>

fun treemap :: "(nat list \<Rightarrow> 'n \<times> 'n) \<Rightarrow> nat list \<Rightarrow> unit hnode \<Rightarrow> ('n \<times> 'n) hnode"
  and treemap_children ::
    "(nat list \<Rightarrow> 'n \<times> 'n) \<Rightarrow> nat list \<Rightarrow> nat \<Rightarrow> unit hnode list \<Rightarrow> ('n \<times> 'n) hnode list"
  where
  "treemap lay path (HNode d k u cs) =
     HNode d k (lay path)
       (case cs of None \<Rightarrow> None | Some l \<Rightarrow> Some (treemap_children lay path 0 l))"
| "treemap_children lay path i [] = []"
| "treemap_children lay path i (c # cs) =
     treemap lay (path @ [i]) c # treemap_children lay path (Suc i) cs"

definition x :: "('n \<times> 'n) hnode \<Rightarrow> 'n" where
  "x n = fst (pos n)"

definition y :: "('n \<times> 'n) hnode \<Rightarrow> 'n" where
  "y n = snd (pos n)"

text \<open>
  A hierarchy node as the page's callbacks see it: the node with its \<open>parent\<close>
  reference (\<open>None\<close> for the root, whose \<open>parent\<close> is \<open>null\<close>).
\<close>

datatype 'p entry = Entry (self: "'p hnode") (parent: "'p hnode option")

fun child_entries :: "'p entry \<Rightarrow> 'p entry list" where
  "child_entries (Entry n p) =
     (case hnode.children n of
        None \<Rightarrow> []
      | Some cs \<Rightarrow> map (\<lambda>c. Entry c (Some n)) cs)"

fun count :: "'p hnode \<Rightarrow> nat" where
  "count (HNode d k p cs) =
     Suc (case cs of None \<Rightarrow> 0 | Some l \<Rightarrow> sum_list (map count l))"

lemma count_child_entries:
  "sum_list (map (\<lambda>e. count (self e)) (child_entries e)) < count (self e)"
  by (cases e; cases "self e") (auto simp: comp_def split: option.splits)

lemma count_level:
  "current \<noteq> [] \<Longrightarrow>
   sum_list (map (\<lambda>e. count (self e)) (concat (map child_entries current)))
     < sum_list (map (\<lambda>e. count (self e)) current)"
proof (induction current)
  case Nil
  then show ?case by simp
next
  case (Cons e es)
  show ?case
  proof (cases "es = []")
    case True
    then show ?thesis using count_child_entries [of e] by simp
  next
    case False
    with Cons.IH count_child_entries [of e] show ?thesis by simp
  qed
qed

text \<open>
  \<^verbatim>\<open>node.each(callback)\<close> of D3 visits the nodes level by level: the current
  level in order, then the level made of their children.
\<close>

function each :: "'p entry list \<Rightarrow> 'p entry list" where
  "each current =
     (if current = [] then []
      else current @ each (concat (map child_entries current)))"
  by pat_completeness auto
termination
  by (relation "measure (\<lambda>es. sum_list (map (\<lambda>e. count (self e)) es))")
     (auto simp: count_level)

declare each.simps [simp del]

text \<open>\<^verbatim>\<open>nodes.descendants()\<close>: the nodes \<open>each\<close> visits from the root.\<close>

definition descendants :: "'p hnode \<Rightarrow> 'p entry list" where
  "descendants rt = each [Entry rt None]"

section \<open>Numbers of the page script\<close>

text \<open>
  Coordinates are JavaScript numbers. The script divides them by two, adds them and
  concatenates them into strings; these three operations are parameters, so that
  what is proved holds for the browser's doubles as for any other arithmetic.
\<close>

record 'n numbers =
  half :: "'n \<Rightarrow> 'n"
  add :: "'n \<Rightarrow> 'n \<Rightarrow> 'n"
  str :: "'n \<Rightarrow> string"

text \<open>Decimal digits of a natural number.\<close>

function decimal :: "nat \<Rightarrow> string" where
  "decimal n =
     (if n < 10 then [''0123456789'' ! n]
      else decimal (n div 10) @ [''0123456789'' ! (n mod 10)])"
  by pat_completeness auto
termination
  by (relation "measure (\<lambda>n. n)") auto

declare decimal.simps [simp del]

text \<open>
  Exact rational arithmetic, for evaluating the script on concrete coordinates: a
  non-negative integer prints as its decimal digits, any other value with a sign
  and at most 17 fraction digits.
\<close>

fun fraction :: "nat \<Rightarrow> rat \<Rightarrow> string" where
  "fraction 0 r = []"
| "fraction (Suc k) r =
     (if r = 0 then []
      else (''0123456789'' ! nat \<lfloor>r * 10\<rfloor>)
             # fraction k (r * 10 - of_int \<lfloor>r * 10\<rfloor>))"

definition rat_str :: "rat \<Rightarrow> string" where
  "rat_str r =
     (if r < 0 then ''-'' else []) @ decimal (nat \<lfloor>\<bar>r\<bar>\<rfloor>)
       @ (if \<bar>r\<bar> = of_int \<lfloor>\<bar>r\<bar>\<rfloor> then []
          else ''.'' @ fraction 17 (\<bar>r\<bar> - of_int \<lfloor>\<bar>r\<bar>\<rfloor>))"

definition exact :: "rat numbers" where
  "exact = \<lparr>half = (\<lambda>v. v / 2), add = (\<lambda>a b. a + b), str = rat_str\<rparr>"

text \<open>
  A layout for evaluating the script: every node at \<open>x = 475\<close>, and at \<open>y = 2890\<close>
  per level. It is what the tree layout of size \<open>[950, 2890]\<close> of the page computes
  for a root with a single child.
\<close>

definition column :: "nat list \<Rightarrow> rat \<times> rat" where
  "column path = (475, 2890 * of_nat (length path))"


section \<open>The elements the page appends\<close>

datatype symbol = symbolCircle | symbolSquare

text \<open>What the script can throw: the error of the fetch (here its message), or the
  TypeError of reading a property of \<open>null\<close> or \<open>undefined\<close>.\<close>

datatype error = FetchError string | TypeError

text \<open>
  A link: a \<open>path\<close> element with its \<open>class\<close> and \<open>d\<close> attributes (\<open>None\<close>: not
  set) and the datum D3 bound to it.
\<close>

datatype 'n link =
  Link (link_class: string) (link_d: "string option") (link_datum: "('n \<times> 'n) entry")

text \<open>
  The marker of a node: a \<open>path\<close> element with its fill, stroke and stroke width,
  and its \<open>d\<close> attribute, which is the outline the symbol generator of size 250
  draws for a symbol type (\<open>None\<close>: not set).
\<close>

datatype marker =
  Marker (fill: string) (stroke: string) (stroke_width: nat) (marker_d: "symbol option")

datatype label = Label (dy: string) (label_x: nat) (content: string)

text \<open>
  A node: a \<open>g\<close> element with its \<open>class\<close> and \<open>transform\<close> attributes, its bound
  datum, and the marker and text children appended to it (\<open>None\<close>: not appended).
\<close>

datatype 'n group =
  Group (group_class: string) (transform: string) (group_datum: "('n \<times> 'n) entry")
    (marker: "marker option") (label: "label option")

text \<open>The children of the top-level \<open>g\<close> element: the links, then the nodes.\<close>

datatype 'n g = G (links: "'n link list") (groups: "'n group list")

text \<open>
  \<^verbatim>\<open>selection.attr(name, f)\<close> and \<^verbatim>\<open>selection.text(f)\<close> call \<open>f\<close> on the
  elements in order. When a call throws, the elements before it are updated, the
  others are left as they were, and the exception leaves the script.
\<close>

fun attr_each :: "('a \<Rightarrow> 'x + 'a) \<Rightarrow> 'a list \<Rightarrow> 'x option \<times> 'a list" where
  "attr_each f [] = (None, [])"
| "attr_each f (a # as) =
     (case f a of
        Inl e \<Rightarrow> (Some e, a # as)
      | Inr b \<Rightarrow> (case attr_each f as of (r, bs) \<Rightarrow> (r, b # bs)))"

section \<open>The callbacks of the page\<close>

text \<open>Lines 67 to 71: the \<open>d\<close> attribute of a link. Reading \<open>d.parent.y\<close> on a node
  whose parent is \<open>null\<close> throws a TypeError.\<close>

definition link_path :: "'n numbers \<Rightarrow> ('n \<times> 'n) entry \<Rightarrow> error + string" where
  "link_path ops d =
     (case parent d of
        None \<Rightarrow> Inl TypeError
      | Some p \<Rightarrow>
          Inr (''M'' @ str ops (half ops (y (self d))) @ '','' @ str ops (x (self d))
             @ ''C'' @ str ops (half ops (add ops (half ops (y (self d))) (half ops (y p))))
                 @ '','' @ str ops (x (self d))
             @ '' '' @ str ops (half ops (add ops (half ops (y (self d))) (half ops (y p))))
                 @ '','' @ str ops (x p)
             @ '' '' @ str ops (half ops (y p)) @ '','' @ str ops (x p)))"

definition set_link_d :: "'n numbers \<Rightarrow> 'n link \<Rightarrow> error + 'n link" where
  "set_link_d ops l =
     (case link_path ops (link_datum l) of
        Inl e \<Rightarrow> Inl e
      | Inr s \<Rightarrow> Inr (Link (link_class l) (Some s) (link_datum l)))"

text \<open>Lines 77 to 79: the class of a node.\<close>

definition node_class :: "'p entry \<Rightarrow> string" where
  "node_class d =
     ''node'' @ (case hnode.children (self d) of
                   Some cs \<Rightarrow> '' node--internal''
                 | None \<Rightarrow> '' node--leaf'')"

text \<open>Lines 80 and 81: the transform of a node.\<close>

definition node_transform :: "'n numbers \<Rightarrow> ('n \<times> 'n) entry \<Rightarrow> string" where
  "node_transform ops d =
     ''translate('' @ str ops (half ops (y (self d))) @ '','' @ str ops (x (self d)) @ '')''"

text \<open>Line 85: the fill of a marker.\<close>

definition marker_fill :: "'p entry \<Rightarrow> string" where
  "marker_fill d = ''#'' @ color (data (self d))"

text \<open>Lines 90 to 93: the symbol type of a marker; the function returns nothing
  (\<open>undefined\<close>) for a name with neither prefix.\<close>

definition symbol_type :: "'p entry \<Rightarrow> symbol option" where
  "symbol_type d =
     (if startsWith (name (data (self d))) ''pore'' then Some symbolCircle
      else if startsWith (name (data (self d))) ''throat'' then Some symbolSquare
      else None)"

text \<open>The symbol generator calls \<open>draw\<close> on the type it is given: with \<open>undefined\<close>
  that is a TypeError.\<close>

definition set_marker_d :: "'n group \<Rightarrow> error + 'n group" where
  "set_marker_d gr =
     (case symbol_type (group_datum gr) of
        None \<Rightarrow> Inl TypeError
      | Some s \<Rightarrow>
          Inr (Group (group_class gr) (transform gr) (group_datum gr)
                 (map_option (\<lambda>m. Marker (fill m) (stroke m) (stroke_width m) (Some s))
                    (marker gr))
                 (label gr)))"

text \<open>Line 99: the text of a node. D3 sets the text content to the empty string
  when the function returns \<open>undefined\<close>.\<close>

definition label_text :: "'p entry \<Rightarrow> string option" where
  "label_text d = index (split (name (data (self d))) (CHR ''.'')) 1"

definition text_content :: "string option \<Rightarrow> string" where
  "text_content v = (case v of None \<Rightarrow> [] | Some s \<Rightarrow> s)"

section \<open>The page\<close>

text \<open>
  Lines 50 to 101: the callback of \<^verbatim>\<open>d3.json\<close>, called once with the error of the
  fetch (\<open>Inl\<close>) or with the parsed document (\<open>Inr\<close>), on the empty \<open>g\<close> element the
  script appended before. It returns the exception that left it, if any, and the
  content of \<open>g\<close> at that point.
\<close>

definition callback ::
  "'n numbers \<Rightarrow> (nat list \<Rightarrow> 'n \<times> 'n) \<Rightarrow> string + tree_data \<Rightarrow> error option \<times> 'n g"
  where
  "callback ops lay response =
     (case response of
        Inl err \<Rightarrow> (Some (FetchError err), G [] [])
      | Inr treeData \<Rightarrow>
          (let nodes = treemap lay [] (hierarchy 0 treeData) in
           case attr_each (set_link_d ops)
                  (map (\<lambda>d. Link ''link'' None d) (drop 1 (descendants nodes))) of
             (Some e, link) \<Rightarrow> (Some e, G link [])
           | (None, link) \<Rightarrow>
               (case attr_each set_marker_d
                       (map (\<lambda>d. Group (node_class d) (node_transform ops d) d
                                    (Some (Marker (marker_fill d) ''black'' 3 None)) None)
                          (descendants nodes)) of
                  (Some e, node) \<Rightarrow> (Some e, G link node)
                | (None, node) \<Rightarrow>
                    (None,
                     G link
                       (map (\<lambda>gr. Group (group_class gr) (transform gr) (group_datum gr)
                                     (marker gr)
                                     (Some (Label ''.35em'' 20
                                        (text_content (label_text (group_datum gr))))))
                          node)))))"

text \<open>
  The whole script on a page whose query string is \<open>search\<close>: the variable \<open>file\<close>,
  the URL given to \<^verbatim>\<open>d3.json\<close>, and the outcome of the callback on what the
  server \<open>fetch\<close> answers for that URL.
\<close>

datatype 'n page =
  Page (file_var: "string option") (request: string) (thrown: "error option")
    (svg_g: "'n g")

definition visualizer ::
  "'n numbers \<Rightarrow> (nat list \<Rightarrow> 'n \<times> 'n) \<Rightarrow> (string \<Rightarrow> string + tree_data) \<Rightarrow> string
     \<Rightarrow> 'n page"
  where
  "visualizer ops lay fetch search =
     (let file = file_param search;
          url = ''http://localhost:8008/data/tree.json'';
          (err, g) = callback ops lay (fetch url)
      in Page file url err g)"

section \<open>The transient run of the notebook\<close>

text \<open>
  The notebook sets up a transient diffusion algorithm and runs it. The algorithm
  is code of the modelling library that the notebook calls; it is not among the
  source files, so the run is written from the specification and from the
  notebook's own description of it. Times are the whole numbers the notebook uses
  and the solved values are of any type \<open>'v\<close>.
\<close>

text \<open>Modelled from the spec: the output setting of the algorithm (the settings
  object of the library is missing), a scalar interval or an explicit list of
  times.\<close>

datatype t_output = Interval nat | Times "nat list"

text \<open>Modelled from the spec: the time settings of the algorithm (the settings object
  of the library is missing), with the quantity solved for.\<close>

record settings =
  t_initial :: nat
  t_final :: nat
  t_output :: t_output
  t_step :: nat
  quantity :: string

text \<open>Cell 12 of the notebook, \<^verbatim>\<open>fd.setup(t_scheme='cranknicolson', t_final=100,
  t_output=5, t_step=1, t_tolerance=1e-12)\<close>, with the initial time and the quantity
  that cell 13 prints.\<close>

definition notebook_settings :: settings where
  "notebook_settings =
     \<lparr>t_initial = 0, t_final = 100, t_output = Interval 5, t_step = 1,
      quantity = ''pore.concentration''\<rparr>"

text \<open>Modelled from the spec: the output times of a run (the time march of the library
  is missing). A scalar is an output interval from the initial time up to the
  final time, and stores nothing when it exceeds the final time; a list gives
  the times themselves.\<close>

definition output_times :: "settings \<Rightarrow> nat list" where
  "output_times s =
     (case t_output s of
        Interval k \<Rightarrow>
          (if k = 0 then []
           else map (\<lambda>i. t_initial s + i * k) [1 ..< Suc ((t_final s - t_initial s) div k)])
      | Times ts \<Rightarrow> ts)"

text \<open>Modelled from the spec: the times a run stores a snapshot for (the time march of
  the library is missing): the initial time, each output time, the final time
  and, if the steady state is reached, the time it is reached at.\<close>

definition snapshot_times :: "settings \<Rightarrow> nat option \<Rightarrow> nat list" where
  "snapshot_times s steady =
     [t_initial s] @ output_times s @ [t_final s]
       @ (case steady of None \<Rightarrow> [] | Some t \<Rightarrow> [t])"

text \<open>Modelled from the spec: the time march (the solver of the library is missing).
  One step solves for a new value of every pore from the values before; \<open>solve\<close>
  stands for the linear solve and is a parameter.\<close>

fun march :: "('v list \<Rightarrow> nat \<Rightarrow> 'v) \<Rightarrow> nat \<Rightarrow> nat \<Rightarrow> 'v list \<Rightarrow> 'v list" where
  "march solve np 0 c = c"
| "march solve np (Suc n) c = march solve np n (map (solve c) [0 ..< np])"

text \<open>Modelled from the spec: the solved quantity at a time (the time march of the
  library is missing): the steps of size \<open>t_step\<close> from the initial time, ended
  early at the steady state.\<close>

definition solution :: "settings \<Rightarrow> ('v list \<Rightarrow> nat \<Rightarrow> 'v) \<Rightarrow> nat option \<Rightarrow> 'v list \<Rightarrow> nat \<Rightarrow> 'v list"
  where
  "solution s solve steady ic t =
     march solve (length ic)
       (((case steady of None \<Rightarrow> t | Some ts \<Rightarrow> min t ts) - t_initial s) div t_step s) ic"

text \<open>Modelled from the spec: \<^verbatim>\<open>fd.run()\<close> (the run of the library is missing). From
  the initial condition \<open>ic\<close>, one value per pore, it stores a snapshot of the
  solved quantity for each snapshot time under the key made of the quantity, \<open>@\<close>
  and the time. \<open>steady\<close> is the time the steady state is reached at, if it is. A
  step of zero is no time march: there is no run (\<open>None\<close>).\<close>

definition run ::
  "settings \<Rightarrow> ('v list \<Rightarrow> nat \<Rightarrow> 'v) \<Rightarrow> nat option \<Rightarrow> 'v list \<Rightarrow> (string \<rightharpoonup> 'v list) option"
  where
  "run s solve steady ic =
     (if t_step s = 0 then None
      else Some (fold (\<lambda>t props. props(quantity s @ ''@'' @ decimal t \<mapsto> solution s solve steady ic t))
                   (snapshot_times s steady) Map.empty))"

section \<open>Notions the claims are stated with\<close>

text \<open>The nodes of a fetched document: the node itself, then the nodes of its
  children, in order.\<close>

fun all_nodes :: "tree_data \<Rightarrow> tree_data list" where
  "all_nodes (TreeData n c ch) =
     TreeData n c ch # (case ch of None \<Rightarrow> [] | Some cs \<Rightarrow> concat (map all_nodes cs))"

text \<open>The nodes of a hierarchy, in the same order.\<close>

fun subnodes :: "'p hnode \<Rightarrow> 'p hnode list" where
  "subnodes (HNode d k p cs) =
     HNode d k p cs # (case cs of None \<Rightarrow> [] | Some l \<Rightarrow> concat (map subnodes l))"

text \<open>The position a node is drawn at: its layout \<open>y\<close> divided by two, then its layout
  \<open>x\<close>, as they are written into an attribute.\<close>

definition rendered_position :: "'n numbers \<Rightarrow> ('n \<times> 'n) hnode \<Rightarrow> string" where
  "rendered_position ops n = str ops (half ops (y n)) @ '','' @ str ops (x n)"

text \<open>A hierarchy node has children exactly when its datum has a non-empty
  \<open>children\<close> array.\<close>

definition faithful :: "'p hnode \<Rightarrow> bool" where
  "faithful n =
     ((hnode.children n = None) =
      (tree_data.children (data n) = None \<or> tree_data.children (data n) = Some []))"

text \<open>The substring of a name after its first \<open>.\<close> (empty when there is none).\<close>

definition after_first_dot :: "string \<Rightarrow> string" where
  "after_first_dot s = drop 1 (dropWhile (\<lambda>c. c \<noteq> CHR ''.'') s)"

text \<open>The cubic curve from the position of a node to the position of another, with
  both control points at the abscissa half-way between them.\<close>

definition curve :: "'n numbers \<Rightarrow> ('n \<times> 'n) hnode \<Rightarrow> ('n \<times> 'n) hnode \<Rightarrow> string" where
  "curve ops n p =
     ''M'' @ rendered_position ops n
       @ ''C'' @ str ops (half ops (add ops (half ops (y n)) (half ops (y p))))
           @ '','' @ str ops (x n)
       @ '' '' @ str ops (half ops (add ops (half ops (y n)) (half ops (y p))))
           @ '','' @ str ops (x p)
       @ '' '' @ rendered_position ops p"

text \<open>A node with its marker and its text, as the script draws it when none of its
  steps throws.\<close>

definition drawn :: "'n numbers \<Rightarrow> ('n \<times> 'n) entry \<Rightarrow> 'n group" where
  "drawn ops d =
     Group (node_class d) (node_transform ops d) d
       (Some (Marker (marker_fill d) ''black'' 3 (symbol_type d)))
       (Some (Label ''.35em'' 20 (text_content (label_text d))))"




text \<open>The number a string of decimal digits reads as.\<close>

definition digit_value :: "char \<Rightarrow> nat" where
  "digit_value c = length (takeWhile (\<lambda>d. d \<noteq> c) ''0123456789'')"

definition number :: "string \<Rightarrow> nat" where
  "number s = foldl (\<lambda>a c. 10 * a + digit_value c) 0 s"

section \<open>Helper facts on splitting\<close>

lemma split_not_Nil: "split s c \<noteq> []"
  by (induction s) (auto split: list.splits)

lemma split_no_sep: "c \<notin> set s \<Longrightarrow> split s c = [s]"
  by (induction s) auto

lemma split_hd: "hd (split s c) = takeWhile (\<lambda>x. x \<noteq> c) s"
  by (induction s) (auto split: list.splits simp: split_not_Nil)

lemma split_tl:
  "c \<in> set s \<Longrightarrow> tl (split s c) = split (drop 1 (dropWhile (\<lambda>x. x \<noteq> c) s)) c"
  by (induction s) (auto split: list.splits simp: split_not_Nil)

lemma index_split_1:
  "index (split s c) 1 =
     (if c \<in> set s then Some (takeWhile (\<lambda>x. x \<noteq> c) (drop 1 (dropWhile (\<lambda>x. x \<noteq> c) s)))
      else None)"
proof (cases "c \<in> set s")
  case False
  then show ?thesis by (simp add: split_no_sep index_def)
next
  case True
  obtain t ts where s: "split s c = t # ts"
    using split_not_Nil [of s c] by (cases "split s c") auto
  let ?r = "drop 1 (dropWhile (\<lambda>x. x \<noteq> c) s)"
  have ts: "ts = split ?r c"
    using split_tl [OF True] s by simp
  obtain u us where r: "split ?r c = u # us"
    using split_not_Nil [of ?r c] by (cases "split ?r c") auto
  have "u = takeWhile (\<lambda>x. x \<noteq> c) ?r"
    using split_hd [of ?r c] r by simp
  with True s ts r show ?thesis by (simp add: index_def)
qed

section \<open>Helper facts on the hierarchy\<close>

lemma each_Nil [simp]: "each [] = []"
  by (subst each.simps) simp

lemma each_Cons: "each (e # es) = e # es @ each (concat (map child_entries (e # es)))"
  by (subst each.simps) simp

lemma each_unfold: "each cur = cur @ each (concat (map child_entries cur))"
  by (cases cur) (simp_all add: each_Cons)

lemma descendants_Cons:
  "descendants rt = Entry rt None # each (child_entries (Entry rt None))"
  by (simp add: descendants_def each_Cons)

lemma child_entries_parent: "e \<in> set (child_entries d) \<Longrightarrow> parent e = Some (self d)"
  by (cases d) (auto split: option.splits)

lemma each_parent_Some:
  "(\<And>e. e \<in> set cur \<Longrightarrow> parent e \<noteq> None) \<Longrightarrow> e \<in> set (each cur) \<Longrightarrow> parent e \<noteq> None"
proof (induction cur rule: each.induct)
  case (1 current)
  show ?case
  proof (cases "current = []")
    case True
    with "1.prems" show ?thesis by simp
  next
    case False
    from "1.prems"(2) have "e \<in> set current \<or> e \<in> set (each (concat (map child_entries current)))"
      by (subst (asm) each_unfold) auto
    then show ?thesis
    proof
      assume "e \<in> set current"
      then show ?thesis using "1.prems"(1) by blast
    next
      assume e: "e \<in> set (each (concat (map child_entries current)))"
      have "\<And>c. c \<in> set (concat (map child_entries current)) \<Longrightarrow> parent c \<noteq> None"
        by (auto dest: child_entries_parent)
      from "1.IH" [OF False this e] show ?thesis .
    qed
  qed
qed

lemma each_parent_visited:
  "e \<in> set (each cur) \<Longrightarrow>
   e \<in> set cur \<or> (\<exists>d \<in> set (each cur). parent e = Some (self d))"
proof (induction cur rule: each.induct)
  case (1 current)
  show ?case
  proof (cases "current = []")
    case True
    with "1.prems" show ?thesis by simp
  next
    case False
    let ?next = "concat (map child_entries current)"
    have unf: "set (each current) = set current \<union> set (each ?next)"
      by (subst each_unfold) auto
    from "1.prems" unf consider "e \<in> set current" | "e \<in> set (each ?next)" by auto
    then show ?thesis
    proof cases
      case 1
      then show ?thesis by simp
    next
      case 2
      from "1.IH" [OF False 2]
      consider "e \<in> set ?next" | "\<exists>d \<in> set (each ?next). parent e = Some (self d)" by auto
      then show ?thesis
      proof cases
        case 1
        then obtain d where "d \<in> set current" "e \<in> set (child_entries d)" by auto
        then show ?thesis using unf child_entries_parent by blast
      next
        case 2
        then show ?thesis using unf by blast
      qed
    qed
  qed
qed

lemma subnodes_self_children:
  "mset (subnodes (self e)) =
     {#self e#} + mset (concat (map (\<lambda>c. subnodes (self c)) (child_entries e)))"
  by (cases e; cases "self e") (auto simp: comp_def split: option.splits)

lemma subnodes_level:
  "mset (concat (map (\<lambda>e. subnodes (self e)) cur)) =
     mset (map self cur)
       + mset (concat (map (\<lambda>e. subnodes (self e)) (concat (map child_entries cur))))"
  by (induction cur) (simp_all add: subnodes_self_children)

lemma mset_each:
  "mset (map self (each cur)) = mset (concat (map (\<lambda>e. subnodes (self e)) cur))"
proof (induction cur rule: each.induct)
  case (1 current)
  show ?case
  proof (cases "current = []")
    case True
    then show ?thesis by simp
  next
    case False
    have "mset (map self (each current)) =
          mset (map self current) + mset (map self (each (concat (map child_entries current))))"
      by (subst each_unfold) simp
    also have "\<dots> = mset (map self current)
        + mset (concat (map (\<lambda>e. subnodes (self e)) (concat (map child_entries current))))"
      using "1.IH" [OF False] by simp
    also have "\<dots> = mset (concat (map (\<lambda>e. subnodes (self e)) current))"
      by (rule subnodes_level [symmetric])
    finally show ?thesis .
  qed
qed

lemma mset_descendants: "mset (map self (descendants rt)) = mset (subnodes rt)"
  using mset_each [of "[Entry rt None]"] by (simp add: descendants_def)

lemma treemap_children_nodes:
  "\<forall>c \<in> set cs. \<forall>(lay :: nat list \<Rightarrow> 'n \<times> 'n) path k.
      map data (subnodes (treemap lay path (hierarchy k c))) = all_nodes c \<Longrightarrow>
   concat (map (\<lambda>n. map data (subnodes n)) (treemap_children (lay :: nat list \<Rightarrow> 'n \<times> 'n) path i (map (hierarchy k) cs)))
     = concat (map all_nodes cs)"
  by (induction cs arbitrary: i) simp_all

lemma data_subnodes:
  "map data (subnodes (treemap (lay :: nat list \<Rightarrow> 'n \<times> 'n) path (hierarchy k t))) = all_nodes t"
proof (induction t arbitrary: lay path k)
  case (TreeData n c ch)
  show ?case
  proof (cases ch)
    case None
    then show ?thesis by simp
  next
    case (Some cs)
    have "\<forall>c \<in> set cs. \<forall>(lay :: nat list \<Rightarrow> 'n \<times> 'n) path k.
      map data (subnodes (treemap lay path (hierarchy k c))) = all_nodes c"
      using TreeData Some by auto
    from treemap_children_nodes [OF this] Some show ?thesis
      by (cases cs) (simp_all add: map_concat comp_def)
  qed
qed

lemma treemap_children_faithful:
  "\<forall>c \<in> set cs. \<forall>(lay :: nat list \<Rightarrow> 'n \<times> 'n) path k.
      list_all faithful (subnodes (treemap lay path (hierarchy k c))) \<Longrightarrow>
   list_all faithful (concat (map subnodes
        (treemap_children (lay :: nat list \<Rightarrow> 'n \<times> 'n) path i (map (hierarchy k) cs))))"
  by (induction cs arbitrary: i) simp_all

lemma faithful_subnodes:
  "list_all faithful (subnodes (treemap (lay :: nat list \<Rightarrow> 'n \<times> 'n) path (hierarchy k t)))"
proof (induction t arbitrary: lay path k)
  case (TreeData n c ch)
  show ?case
  proof (cases ch)
    case None
    then show ?thesis by (simp add: faithful_def)
  next
    case (Some cs)
    have "\<forall>c \<in> set cs. \<forall>(lay :: nat list \<Rightarrow> 'n \<times> 'n) path k.
      list_all faithful (subnodes (treemap lay path (hierarchy k c)))"
      using TreeData Some by auto
    from treemap_children_faithful [OF this]
    have kids: "list_all faithful (concat (map subnodes
        (treemap_children lay path 0 (map (hierarchy (Suc k)) cs))))" .
    show ?thesis
    proof (cases cs)
      case Nil
      with Some show ?thesis by (simp add: faithful_def)
    next
      case (Cons a as)
      have "faithful (HNode (TreeData n c ch) k (lay path)
          (Some (treemap_children lay path 0 (map (hierarchy (Suc k)) cs))))"
        using Some Cons by (simp add: faithful_def)
      with kids Some Cons show ?thesis by simp
    qed
  qed
qed

section \<open>Helper facts on the page\<close>

lemma attr_each_keeps:
  "(\<And>a b. f a = Inr b \<Longrightarrow> h b = h a) \<Longrightarrow> map h (snd (attr_each f as)) = map h as"
  by (induction as) (auto split: sum.splits prod.splits)

lemma attr_each_all:
  "(\<And>a. a \<in> set as \<Longrightarrow> f a = Inr (k a)) \<Longrightarrow> attr_each f as = (None, map k as)"
  by (induction as) auto

lemma link_path_curve:
  "parent d = Some p \<Longrightarrow> link_path ops d = Inr (curve ops (self d) p)"
  by (simp add: link_path_def curve_def rendered_position_def)

lemma node_transform_position:
  "node_transform ops d = ''translate('' @ rendered_position ops (self d) @ '')''"
  by (simp add: node_transform_def rendered_position_def)

lemma tail_has_parent:
  "d \<in> set (drop 1 (descendants rt)) \<Longrightarrow> \<exists>p. parent d = Some p"
proof -
  assume "d \<in> set (drop 1 (descendants rt))"
  then have d: "d \<in> set (each (child_entries (Entry rt None)))"
    by (simp add: descendants_Cons)
  have "\<And>e. e \<in> set (child_entries (Entry rt None)) \<Longrightarrow> parent e \<noteq> None"
    by (auto dest: child_entries_parent)
  from each_parent_Some [OF this d] show ?thesis by auto
qed

lemma link_step:
  "attr_each (set_link_d ops) (map (\<lambda>d. Link ''link'' None d) (drop 1 (descendants rt)))
     = (None, map (\<lambda>d. Link ''link'' (Some (curve ops (self d) (the (parent d)))) d)
                (drop 1 (descendants rt)))"
proof -
  have "attr_each (set_link_d ops) (map (\<lambda>d. Link ''link'' None d) (drop 1 (descendants rt)))
     = (None, map (\<lambda>l. Link ''link'' (Some (curve ops (self (link_datum l))
                                             (the (parent (link_datum l))))) (link_datum l))
                (map (\<lambda>d. Link ''link'' None d) (drop 1 (descendants rt))))"
  proof (rule attr_each_all)
    fix a
    assume "a \<in> set (map (\<lambda>d. Link ''link'' None d) (drop 1 (descendants rt)))"
    then obtain d where d: "d \<in> set (drop 1 (descendants rt))" and a: "a = Link ''link'' None d"
      by auto
    from tail_has_parent [OF d] obtain p where "parent d = Some p" by auto
    then show "set_link_d ops a = Inr (Link ''link'' (Some (curve ops (self (link_datum a))
                                             (the (parent (link_datum a))))) (link_datum a))"
      using a by (simp add: set_link_d_def link_path_curve)
  qed
  then show ?thesis by (simp add: comp_def)
qed

lemma callback_links:
  "links (snd (callback ops lay (Inr t))) =
     map (\<lambda>d. Link ''link'' (Some (curve ops (self d) (the (parent d)))) d)
       (drop 1 (descendants (treemap lay [] (hierarchy 0 t))))"
  unfolding callback_def Let_def link_step
  by (simp split: prod.splits option.splits)

lemma set_marker_d_keeps:
  "set_marker_d a = Inr b \<Longrightarrow>
   group_class b = group_class a \<and> transform b = transform a \<and> group_datum b = group_datum a"
  by (auto simp: set_marker_d_def split: option.splits)

lemma callback_groups:
  fixes t :: tree_data and ops :: "'n numbers" and lay :: "nat list \<Rightarrow> 'n \<times> 'n"
  defines "out \<equiv> snd (callback ops lay (Inr t))"
  shows "map group_datum (groups out) = descendants (treemap lay [] (hierarchy 0 t))"
    and "map group_class (groups out) =
           map node_class (descendants (treemap lay [] (hierarchy 0 t)))"
    and "map transform (groups out) =
           map (node_transform ops) (descendants (treemap lay [] (hierarchy 0 t)))"
proof -
  let ?ds = "descendants (treemap lay [] (hierarchy 0 t))"
  let ?gs = "map (\<lambda>d. Group (node_class d) (node_transform ops d) d
                        (Some (Marker (marker_fill d) ''black'' 3 None)) None) ?ds"
  obtain r ns where step: "attr_each set_marker_d ?gs = (r, ns)"
    by (cases "attr_each set_marker_d ?gs")
  have keep: "map h ns = map h ?gs"
    if "\<And>a b. set_marker_d a = Inr b \<Longrightarrow> h b = h a"
    for h :: "'n group \<Rightarrow> 'b"
    using attr_each_keeps [of set_marker_d h ?gs, OF that] step by simp
  have 1: "map group_datum ns = ?ds"
    using keep [of group_datum] by (simp add: set_marker_d_keeps comp_def)
  have 2: "map group_class ns = map node_class ?ds"
    using keep [of group_class] by (simp add: set_marker_d_keeps comp_def)
  have 3: "map transform ns = map (node_transform ops) ?ds"
    using keep [of transform] by (simp add: set_marker_d_keeps comp_def)
  have out: "groups out = ns \<or>
      groups out = map (\<lambda>gr. Group (group_class gr) (transform gr) (group_datum gr) (marker gr)
                           (Some (Label ''.35em'' 20 (text_content (label_text (group_datum gr))))))
                     ns"
    using step unfolding out_def callback_def Let_def link_step
    by (cases r) simp_all
  show "map group_datum (groups out) = ?ds"
    using out 1 by (auto simp: comp_def)
  show "map group_class (groups out) = map node_class ?ds"
    using out 2 by (auto simp: comp_def)
  show "map transform (groups out) = map (node_transform ops) ?ds"
    using out 3 by (auto simp: comp_def)
qed

lemma marker_step_None:
  assumes "attr_each set_marker_d
             (map (\<lambda>d. Group (node_class d) (node_transform ops d) d
                        (Some (Marker (marker_fill d) ''black'' 3 None)) None) ds) = (None, bs)"
  shows "bs = map (\<lambda>d. Group (node_class d) (node_transform ops d) d
                        (Some (Marker (marker_fill d) ''black'' 3 (symbol_type d))) None) ds
         \<and> (\<forall>d \<in> set ds. symbol_type d \<noteq> None)"
  using assms
  by (induction ds arbitrary: bs)
     (auto simp: set_marker_d_def split: sum.splits prod.splits option.splits)

lemma callback_complete:
  assumes "callback ops lay (Inr t) = (None, out)"
  shows "groups out = map (drawn ops) (descendants (treemap lay [] (hierarchy 0 t)))"
    and "\<forall>d \<in> set (descendants (treemap lay [] (hierarchy 0 t))). symbol_type d \<noteq> None"
  using assms unfolding callback_def Let_def link_step
  by (auto simp: comp_def drawn_def split: prod.splits option.splits dest!: marker_step_None)

lemma marker_step_all:
  "\<forall>d \<in> set ds. symbol_type d \<noteq> None \<Longrightarrow>
   fst (attr_each set_marker_d
             (map (\<lambda>d. Group (node_class d) (node_transform ops d) d
                        (Some (Marker (marker_fill d) ''black'' 3 None)) None) ds)) = None"
  by (induction ds) (auto simp: set_marker_d_def split: sum.splits prod.splits option.splits)

lemma callback_completes:
  fixes ops :: "'n numbers"
  assumes "\<forall>d \<in> set (descendants (treemap lay [] (hierarchy 0 t))). symbol_type d \<noteq> None"
  shows "fst (callback ops lay (Inr t)) = None"
proof -
  let ?gs = "map (\<lambda>d. Group (node_class d) (node_transform ops d) d
                        (Some (Marker (marker_fill d) ''black'' 3 None)) None)
               (descendants (treemap lay [] (hierarchy 0 t)))"
  obtain r ns where step: "attr_each set_marker_d ?gs = (r, ns)"
    by (cases "attr_each set_marker_d ?gs")
  with marker_step_all [OF assms, of ops] have "r = None" by simp
  with step show ?thesis unfolding callback_def Let_def link_step by simp
qed

lemma set_descendants: "self ` set (descendants rt) = set (subnodes rt)"
proof -
  have "set (map self (descendants rt)) = set (subnodes rt)"
    using mset_descendants [of rt] by (rule mset_eq_setD)
  then show ?thesis by simp
qed

lemma descendants_data:
  fixes lay :: "nat list \<Rightarrow> 'n \<times> 'n"
  assumes "d \<in> set (descendants (treemap lay [] (hierarchy 0 t)))"
  shows "data (self d) \<in> set (all_nodes t)" and "faithful (self d)"
proof -
  let ?rt = "treemap lay [] (hierarchy 0 t)"
  from assms have in_sub: "self d \<in> set (subnodes ?rt)"
    using set_descendants [of ?rt] by blast
  then have "data (self d) \<in> set (map data (subnodes ?rt))" by simp
  then show "data (self d) \<in> set (all_nodes t)" by (simp only: data_subnodes)
  from in_sub faithful_subnodes [of lay "[]" 0 t] show "faithful (self d)"
    by (simp add: list_all_iff)
qed

lemma groups_pointwise:
  assumes "callback ops lay (Inr t) = (e, out)" and "gr \<in> set (groups out)"
  shows "group_datum gr \<in> set (descendants (treemap lay [] (hierarchy 0 t)))"
    and "group_class gr = node_class (group_datum gr)"
    and "transform gr = node_transform ops (group_datum gr)"
proof -
  let ?ds = "descendants (treemap lay [] (hierarchy 0 t))"
  from assms(1) have out: "out = snd (callback ops lay (Inr t))" by simp
  have d: "map group_datum (groups out) = ?ds"
    unfolding out by (rule callback_groups)
  have "map group_class (groups out) = map node_class (map group_datum (groups out))"
    unfolding d unfolding out by (rule callback_groups)
  then have c: "map group_class (groups out) = map (\<lambda>g. node_class (group_datum g)) (groups out)"
    by (simp add: comp_def)
  have "map transform (groups out) = map (node_transform ops) (map group_datum (groups out))"
    unfolding d unfolding out by (rule callback_groups)
  then have t: "map transform (groups out)
      = map (\<lambda>g. node_transform ops (group_datum g)) (groups out)"
    by (simp add: comp_def)
  from d assms(2) show "group_datum gr \<in> set ?ds"
    by (metis image_eqI list.set_map)
  from c assms(2) show "group_class gr = node_class (group_datum gr)"
    by (simp only: map_eq_conv)
  from t assms(2) show "transform gr = node_transform ops (group_datum gr)"
    by (simp only: map_eq_conv)
qed

lemma dropWhile_no_sep: "c \<notin> set s \<Longrightarrow> dropWhile (\<lambda>x. x \<noteq> c) s = []"
  by (induction s) auto

lemma text_content_label:
  "text_content (label_text d) =
     takeWhile (\<lambda>c. c \<noteq> CHR ''.'') (after_first_dot (name (data (self d))))"
  unfolding text_content_def label_text_def after_first_dot_def index_split_1
  by (simp add: dropWhile_no_sep)



lemma rat_str_values:
  "rat_str 0 = ''0''" "rat_str 475 = ''475''" "rat_str 1445 = ''1445''"
  "rat_str (1445 / 2) = ''722.5''"
  by code_simp+

lemma example_drawn:
  "callback exact column
        (Inr (TreeData ''pore.0'' ''ff0000'' (Some [TreeData ''throat.1'' ''0000ff'' None]))) =
   (None,
    G [Link ''link'' (Some ''M1445,475C722.5,475 722.5,475 0,475'')
         (Entry (HNode (TreeData ''throat.1'' ''0000ff'' None) 1 (475, 2890) None)
            (Some (HNode (TreeData ''pore.0'' ''ff0000''
                            (Some [TreeData ''throat.1'' ''0000ff'' None]))
                     0 (475, 0)
                     (Some [HNode (TreeData ''throat.1'' ''0000ff'' None) 1 (475, 2890) None]))))]
      [Group ''node node--internal'' ''translate(0,475)''
         (Entry (HNode (TreeData ''pore.0'' ''ff0000''
                            (Some [TreeData ''throat.1'' ''0000ff'' None]))
                     0 (475, 0)
                     (Some [HNode (TreeData ''throat.1'' ''0000ff'' None) 1 (475, 2890) None]))
            None)
         (Some (Marker ''#ff0000'' ''black'' 3 (Some symbolCircle)))
         (Some (Label ''.35em'' 20 ''0'')),
       Group ''node node--leaf'' ''translate(1445,475)''
         (Entry (HNode (TreeData ''throat.1'' ''0000ff'' None) 1 (475, 2890) None)
            (Some (HNode (TreeData ''pore.0'' ''ff0000''
                            (Some [TreeData ''throat.1'' ''0000ff'' None]))
                     0 (475, 0)
                     (Some [HNode (TreeData ''throat.1'' ''0000ff'' None) 1 (475, 2890) None]))))
         (Some (Marker ''#0000ff'' ''black'' 3 (Some symbolSquare)))
         (Some (Label ''.35em'' 20 ''1''))])"
  by (simp add: callback_def descendants_def each_Cons set_link_d_def link_path_def
      set_marker_d_def symbol_type_def startsWith_def node_class_def
      marker_fill_def label_text_def text_content_def index_def x_def y_def node_transform_def
      Let_def exact_def column_def rat_str_values)

lemma length_descendants:
  fixes lay :: "nat list \<Rightarrow> 'n \<times> 'n"
  shows "length (descendants (treemap lay [] (hierarchy 0 t))) = length (all_nodes t)"
proof -
  let ?rt = "treemap lay [] (hierarchy 0 t)"
  have "length (descendants ?rt) = size (mset (map self (descendants ?rt)))" by simp
  also have "\<dots> = size (mset (subnodes ?rt))" by (simp only: mset_descendants)
  also have "\<dots> = length (map data (subnodes ?rt))" by simp
  also have "\<dots> = length (all_nodes t)" by (simp only: data_subnodes)
  finally show ?thesis .
qed






section \<open>Helper facts on the run\<close>

lemma length_march: "length c = np \<Longrightarrow> length (march solve np n c) = np"
  by (induction n arbitrary: c) simp_all

lemma length_solution: "length (solution s solve steady ic t) = length ic"
  by (simp add: solution_def length_march)

lemma multiples_of_five: "k \<le> 20 \<Longrightarrow> 5 * k \<in> set (snapshot_times notebook_settings steady)"
proof (cases "k = 0")
  case True
  then show ?thesis by (simp add: snapshot_times_def notebook_settings_def)
next
  case False
  assume "k \<le> 20"
  with False have "k \<in> set [1 ..< Suc (100 div 5)]" by simp
  then have "0 + k * 5 \<in> set (output_times notebook_settings)"
    unfolding output_times_def notebook_settings_def by simp
  then show ?thesis by (simp add: snapshot_times_def mult.commute)
qed

lemma digit_value_digit: "n < 10 \<Longrightarrow> digit_value (''0123456789'' ! n) = n"
  by (auto simp: digit_value_def less_Suc_eq numeral_eq_Suc)

lemma number_decimal: "number (decimal n) = n"
proof (induction n rule: decimal.induct)
  case (1 n)
  show ?case
  proof (cases "n < 10")
    case True
    then show ?thesis
      by (subst decimal.simps) (simp add: number_def digit_value_digit)
  next
    case False
    then have "number (decimal (n div 10)) = n div 10" by (rule "1.IH")
    then have "number (decimal (n div 10) @ [''0123456789'' ! (n mod 10)])
        = 10 * (n div 10) + n mod 10"
      by (simp add: number_def digit_value_digit)
    with False show ?thesis by (subst decimal.simps) simp
  qed
qed

lemma decimal_inject: "decimal m = decimal n \<Longrightarrow> m = n"
  by (metis number_decimal)

lemma fold_stores_own:
  "k \<in> set ts \<Longrightarrow> (\<And>t. t \<in> set ts \<Longrightarrow> key t = key k \<Longrightarrow> t = k) \<Longrightarrow>
   fold (\<lambda>t props. props(key t \<mapsto> val t)) ts m (key k) = Some (val k)"
proof (induction ts rule: rev_induct)
  case Nil
  then show ?case by simp
next
  case (snoc a ts)
  let ?f = "\<lambda>t props. props(key t \<mapsto> val t)"
  have step: "fold ?f (ts @ [a]) m = (fold ?f ts m)(key a \<mapsto> val a)" by simp
  show ?case
  proof (cases "key k = key a")
    case True
    with snoc.prems(2) [of a] have "a = k" by simp
    then show ?thesis unfolding step by simp
  next
    case False
    with snoc.prems have "k \<in> set ts" by auto
    moreover have "\<And>t. t \<in> set ts \<Longrightarrow> key t = key k \<Longrightarrow> t = k"
      using snoc.prems(2) by simp
    ultimately have "fold ?f ts m (key k) = Some (val k)"
      by (rule snoc.IH)
    with False show ?thesis unfolding step by (simp only: fun_upd_apply if_False)
  qed
qed

lemma march_funpow:
  "march solve np n c = ((\<lambda>c. map (solve c) [0 ..< np]) ^^ n) c"
proof -
  define F where "F = (\<lambda>c. map (solve c) [0 ..< np])"
  have "march solve np n c = (F ^^ n) c"
  proof (induction n arbitrary: c)
    case 0
    show ?case by simp
  next
    case (Suc n)
    have "march solve np (Suc n) c = march solve np n (F c)" by (simp add: F_def)
    also have "\<dots> = (F ^^ n) (F c)" by (rule Suc.IH)
    also have "\<dots> = (F ^^ Suc n) c" by (simp add: funpow_swap1)
    finally show ?case .
  qed
  then show ?thesis by (simp only: F_def)
qed

section \<open>The claims\<close>

text \<open>
  C1, as amended. Whenever the script draws the tree to its end, the text of every
  node is the part of its name after the first \<open>.\<close> and before the next one: the
  second token of the name split at \<open>.\<close>, and the empty string when the name has
  no \<open>.\<close>.
\<close>

theorem label_is_second_token:
  assumes "callback ops lay (Inr t) = (None, out)"
  shows "\<forall>gr \<in> set (groups out).
           map_option content (label gr) =
             Some (takeWhile (\<lambda>c. c \<noteq> CHR ''.'')
                     (after_first_dot (name (data (self (group_datum gr))))))"
  using callback_complete(1) [OF assms]
  by (auto simp: drawn_def text_content_label)

theorem label_is_second_token_witness:
  "fst (callback exact column
          (Inr (TreeData ''pore.a.b'' ''ff0000'' (Some [TreeData ''throat.1'' ''0000ff'' None]))))
     = None \<and>
   map (\<lambda>gr. map_option content (label gr))
     (groups (snd (callback exact column
        (Inr (TreeData ''pore.a.b'' ''ff0000'' (Some [TreeData ''throat.1'' ''0000ff'' None]))))))
     = [Some ''a'', Some ''1'']"
proof -
  let ?t = "TreeData ''pore.a.b'' ''ff0000'' (Some [TreeData ''throat.1'' ''0000ff'' None])"
  let ?ds = "descendants (treemap column [] (hierarchy 0 ?t))"
  have "\<forall>d \<in> set ?ds. symbol_type d \<noteq> None"
    by (simp add: descendants_def each_Cons symbol_type_def startsWith_def)
  then have n: "fst (callback exact column (Inr ?t)) = None"
    by (rule callback_completes)
  then have "callback exact column (Inr ?t) = (None, snd (callback exact column (Inr ?t)))"
    by (metis prod.collapse)
  from label_is_second_token [OF this]
  have "map (\<lambda>gr. map_option content (label gr)) (groups (snd (callback exact column (Inr ?t))))
    = map (\<lambda>gr. Some (takeWhile (\<lambda>c. c \<noteq> CHR ''.'')
                     (after_first_dot (name (data (self (group_datum gr)))))))
        (groups (snd (callback exact column (Inr ?t))))"
    by simp
  also have "\<dots> = map (\<lambda>d. Some (takeWhile (\<lambda>c. c \<noteq> CHR ''.'')
                     (after_first_dot (name (data (self d))))))
        (map group_datum (groups (snd (callback exact column (Inr ?t)))))"
    by (simp add: comp_def)
  also have "\<dots> = [Some ''a'', Some ''1'']"
    unfolding callback_groups
    by (simp add: descendants_def each_Cons after_first_dot_def)
  finally show ?thesis using n by simp
qed

text \<open>
  C1, as stated, fails: the node named \<open>pore.a.b\<close> is drawn with the text \<open>a\<close>,
  and the substring of its name after the first \<open>.\<close> is \<open>a.b\<close>.
\<close>

theorem label_after_first_dot_counterexample:
  "map (\<lambda>gr. map_option content (label gr))
     (groups (snd (callback exact column (Inr (TreeData ''pore.a.b'' ''ff0000'' None)))))
     = [Some ''a''] \<and>
   after_first_dot ''pore.a.b'' = ''a.b''"
  by (simp add: callback_def descendants_def each_Cons set_link_d_def link_path_def
      set_marker_d_def symbol_type_def startsWith_def node_class_def
      marker_fill_def label_text_def text_content_def index_def node_transform_def
      Let_def after_first_dot_def)

text \<open>
  C2. On the document of the example, a root \<open>pore.0\<close> of colour \<open>ff0000\<close> with the
  single child \<open>throat.1\<close> of colour \<open>0000ff\<close>, the script throws nothing and draws
  one link, from the child to the root, one internal node with a circle filled
  \<open>#ff0000\<close> and the text \<open>0\<close>, and one leaf node with a square filled \<open>#0000ff\<close> and
  the text \<open>1\<close>, whatever the layout and the arithmetic.
\<close>

theorem example_scenario:
  "let leaf = HNode (TreeData ''throat.1'' ''0000ff'' None) 1 (lay [0]) None;
       top = HNode (TreeData ''pore.0'' ''ff0000'' (Some [TreeData ''throat.1'' ''0000ff'' None]))
               0 (lay []) (Some [leaf])
   in callback ops lay
        (Inr (TreeData ''pore.0'' ''ff0000'' (Some [TreeData ''throat.1'' ''0000ff'' None]))) =
      (None,
       G [Link ''link'' (Some (curve ops leaf top)) (Entry leaf (Some top))]
         [Group ''node node--internal'' (''translate('' @ rendered_position ops top @ '')'')
            (Entry top None)
            (Some (Marker ''#ff0000'' ''black'' 3 (Some symbolCircle)))
            (Some (Label ''.35em'' 20 ''0'')),
          Group ''node node--leaf'' (''translate('' @ rendered_position ops leaf @ '')'')
            (Entry leaf (Some top))
            (Some (Marker ''#0000ff'' ''black'' 3 (Some symbolSquare)))
            (Some (Label ''.35em'' 20 ''1''))])"
  by (simp add: callback_def descendants_def each_Cons set_link_d_def link_path_def curve_def
      rendered_position_def set_marker_d_def symbol_type_def startsWith_def node_class_def
      marker_fill_def label_text_def text_content_def index_def x_def y_def node_transform_def
      Let_def)

theorem example_scenario_witness:
  "callback exact column
        (Inr (TreeData ''pore.0'' ''ff0000'' (Some [TreeData ''throat.1'' ''0000ff'' None]))) =
   (let leaf = HNode (TreeData ''throat.1'' ''0000ff'' None) 1 (475, 2890) None;
       top = HNode (TreeData ''pore.0'' ''ff0000'' (Some [TreeData ''throat.1'' ''0000ff'' None]))
               0 (475, 0) (Some [leaf])
    in
      (None,
       G [Link ''link'' (Some ''M1445,475C722.5,475 722.5,475 0,475'') (Entry leaf (Some top))]
         [Group ''node node--internal'' ''translate(0,475)''
            (Entry top None)
            (Some (Marker ''#ff0000'' ''black'' 3 (Some symbolCircle)))
            (Some (Label ''.35em'' 20 ''0'')),
          Group ''node node--leaf'' ''translate(1445,475)''
            (Entry leaf (Some top))
            (Some (Marker ''#0000ff'' ''black'' 3 (Some symbolSquare)))
            (Some (Label ''.35em'' 20 ''1''))]))"
  using example_scenario [of column exact]
  by (simp add: Let_def curve_def rendered_position_def exact_def x_def y_def column_def
      rat_str_values)




text \<open>
  C4. Whether or not the script later throws, every node of the fetched document
  gets a \<open>g\<close> element and every node but the root gets a link: the links are one
  fewer than the nodes, they belong to the nodes after the root in the order of
  the nodes, and each is the cubic curve from the position of its node to the
  position of the parent of its node.
\<close>

theorem links_for_non_root_nodes:
  assumes "callback ops lay (Inr t) = (e, out)"
  shows "length (groups out) = length (all_nodes t) \<and>
         length (links out) = length (all_nodes t) - 1 \<and>
         map group_datum (groups out) =
           Entry (treemap lay [] (hierarchy 0 t)) None # map link_datum (links out) \<and>
         (\<forall>l \<in> set (links out).
            link_class l = ''link'' \<and>
            (\<exists>p. parent (link_datum l) = Some p \<and>
                 link_d l = Some (curve ops (self (link_datum l)) p)))"
proof (intro conjI)
  let ?rt = "treemap lay [] (hierarchy 0 t)"
  from assms have out: "out = snd (callback ops lay (Inr t))" by simp
  have d: "map group_datum (groups out) = descendants ?rt"
    unfolding out by (rule callback_groups)
  have l: "links out =
     map (\<lambda>d. Link ''link'' (Some (curve ops (self d) (the (parent d)))) d)
       (drop 1 (descendants ?rt))"
    unfolding out by (rule callback_links)
  have "length (groups out) = length (map group_datum (groups out))" by simp
  also have "\<dots> = length (all_nodes t)" unfolding d by (rule length_descendants)
  finally show n: "length (groups out) = length (all_nodes t)" .
  show "length (links out) = length (all_nodes t) - 1"
    unfolding l by (simp add: length_descendants)
  show "map group_datum (groups out) = Entry ?rt None # map link_datum (links out)"
    unfolding d l by (simp add: descendants_Cons comp_def)
  show "\<forall>l \<in> set (links out).
            link_class l = ''link'' \<and>
            (\<exists>p. parent (link_datum l) = Some p \<and>
                 link_d l = Some (curve ops (self (link_datum l)) p))"
  proof
    fix k
    assume "k \<in> set (links out)"
    then obtain d where k: "k = Link ''link'' (Some (curve ops (self d) (the (parent d)))) d"
      and d: "d \<in> set (drop 1 (descendants ?rt))"
      unfolding l by auto
    from tail_has_parent [OF d] obtain p where "parent d = Some p" by auto
    with k show "link_class k = ''link'' \<and>
            (\<exists>p. parent (link_datum k) = Some p \<and>
                 link_d k = Some (curve ops (self (link_datum k)) p))"
      by simp
  qed
qed

theorem links_for_non_root_nodes_witness:
  "length (groups (snd (callback exact column
      (Inr (TreeData ''pore.0'' ''ff0000'' (Some [TreeData ''throat.1'' ''0000ff'' None])))))) = 2 \<and>
   length (links (snd (callback exact column
      (Inr (TreeData ''pore.0'' ''ff0000'' (Some [TreeData ''throat.1'' ''0000ff'' None])))))) = 1 \<and>
   map link_d (links (snd (callback exact column
      (Inr (TreeData ''pore.0'' ''ff0000'' (Some [TreeData ''throat.1'' ''0000ff'' None]))))))
     = [Some ''M1445,475C722.5,475 722.5,475 0,475'']"
proof -
  let ?t = "TreeData ''pore.0'' ''ff0000'' (Some [TreeData ''throat.1'' ''0000ff'' None])"
  have c: "callback exact column (Inr ?t)
      = (fst (callback exact column (Inr ?t)), snd (callback exact column (Inr ?t)))"
    by simp
  from links_for_non_root_nodes [OF c]
  have "length (groups (snd (callback exact column (Inr ?t)))) = length (all_nodes ?t)"
    and "length (links (snd (callback exact column (Inr ?t)))) = length (all_nodes ?t) - 1"
    by simp_all
  then show ?thesis by (simp add: example_drawn)
qed

text \<open>
  C5. When the fetch ends with an error, the script throws that error and the \<open>g\<close>
  element stays empty: no link, no node and so no text.
\<close>

theorem fetch_error_renders_nothing:
  "fetch ''http://localhost:8008/data/tree.json'' = Inl err \<Longrightarrow>
   thrown (visualizer ops lay fetch search) = Some (FetchError err) \<and>
   links (svg_g (visualizer ops lay fetch search)) = [] \<and>
   groups (svg_g (visualizer ops lay fetch search)) = []"
  by (simp add: visualizer_def callback_def Let_def)

theorem fetch_error_renders_nothing_witness:
  "thrown (visualizer exact column (\<lambda>url. Inl ''Not Found'') ''?file=tree'')
     = Some (FetchError ''Not Found'') \<and>
   links (svg_g (visualizer exact column (\<lambda>url. Inl ''Not Found'') ''?file=tree'')) = [] \<and>
   groups (svg_g (visualizer exact column (\<lambda>url. Inl ''Not Found'') ''?file=tree'')) = []"
  using fetch_error_renders_nothing
    [of "\<lambda>url. Inl ''Not Found''" "''Not Found''" exact column "''?file=tree''"]
  by simp

text \<open>
  C6. Whatever the query string, the script requests the one URL
  \<open>http://localhost:8008/data/tree.json\<close>; two page loads that differ in the query
  string only, against the same server, throw the same and draw the same.
\<close>

theorem fetch_url_is_fixed:
  "request (visualizer ops lay fetch search) = ''http://localhost:8008/data/tree.json'' \<and>
   thrown (visualizer ops lay fetch search) = thrown (visualizer ops lay fetch search') \<and>
   svg_g (visualizer ops lay fetch search) = svg_g (visualizer ops lay fetch search')"
  by (simp add: visualizer_def Let_def split: prod.splits)

text \<open>
  C7. Every node of the fetched document gets a \<open>g\<close> element, and whether or not
  the script later throws, the class of the element of a node without a
  \<open>children\<close> key is \<open>node node--leaf\<close> and the class of the element of a node with
  a non-empty \<open>children\<close> array is \<open>node node--internal\<close>.
\<close>

theorem node_class_by_children:
  assumes "callback ops lay (Inr t) = (e, out)"
  shows "mset (map (\<lambda>gr. data (self (group_datum gr))) (groups out)) = mset (all_nodes t) \<and>
         (\<forall>gr \<in> set (groups out).
            (tree_data.children (data (self (group_datum gr))) = None \<longrightarrow>
               group_class gr = ''node node--leaf'') \<and>
            (\<forall>cs. tree_data.children (data (self (group_datum gr))) = Some cs \<and> cs \<noteq> [] \<longrightarrow>
               group_class gr = ''node node--internal''))"
proof
  let ?rt = "treemap lay [] (hierarchy 0 t)"
  from assms have out: "out = snd (callback ops lay (Inr t))" by simp
  have "map (\<lambda>gr. data (self (group_datum gr))) (groups out)
      = map data (map self (map group_datum (groups out)))"
    by (simp add: comp_def)
  also have "\<dots> = map data (map self (descendants ?rt))"
    unfolding out callback_groups ..
  finally have "mset (map (\<lambda>gr. data (self (group_datum gr))) (groups out))
      = mset (map data (map self (descendants ?rt)))"
    by (rule arg_cong)
  also have "\<dots> = image_mset data (mset (map self (descendants ?rt)))"
    by (rule mset_map)
  also have "\<dots> = image_mset data (mset (subnodes ?rt))"
    by (simp only: mset_descendants)
  also have "\<dots> = mset (map data (subnodes ?rt))"
    by (rule mset_map [symmetric])
  also have "\<dots> = mset (all_nodes t)" by (simp only: data_subnodes)
  finally show "mset (map (\<lambda>gr. data (self (group_datum gr))) (groups out)) = mset (all_nodes t)" .
next
  show "\<forall>gr \<in> set (groups out).
            (tree_data.children (data (self (group_datum gr))) = None \<longrightarrow>
               group_class gr = ''node node--leaf'') \<and>
            (\<forall>cs. tree_data.children (data (self (group_datum gr))) = Some cs \<and> cs \<noteq> [] \<longrightarrow>
               group_class gr = ''node node--internal'')"
  proof
    fix gr
    assume gr: "gr \<in> set (groups out)"
    from groups_pointwise [OF assms gr]
    have d: "group_datum gr \<in> set (descendants (treemap lay [] (hierarchy 0 t)))"
      and c: "group_class gr = node_class (group_datum gr)"
      by simp_all
    from descendants_data(2) [OF d] have "faithful (self (group_datum gr))" .
    with c show "(tree_data.children (data (self (group_datum gr))) = None \<longrightarrow>
               group_class gr = ''node node--leaf'') \<and>
            (\<forall>cs. tree_data.children (data (self (group_datum gr))) = Some cs \<and> cs \<noteq> [] \<longrightarrow>
               group_class gr = ''node node--internal'')"
      by (auto simp: faithful_def node_class_def split: option.splits)
  qed
qed

theorem node_class_by_children_witness:
  "map (\<lambda>gr. (tree_data.children (data (self (group_datum gr))), group_class gr))
     (groups (snd (callback exact column
        (Inr (TreeData ''pore.0'' ''ff0000'' (Some [TreeData ''throat.1'' ''0000ff'' None]))))))
     = [(Some [TreeData ''throat.1'' ''0000ff'' None], ''node node--internal''),
        (None, ''node node--leaf'')]"
proof -
  let ?t = "TreeData ''pore.0'' ''ff0000'' (Some [TreeData ''throat.1'' ''0000ff'' None])"
  let ?out = "snd (callback exact column (Inr ?t))"
  let ?e = "fst (callback exact column (Inr ?t))"
  have c: "callback exact column (Inr ?t) = (?e, ?out)" by simp
  have d: "map group_datum (groups ?out) =
     [Entry (treemap column [] (hierarchy 0 ?t)) None,
      Entry (HNode (TreeData ''throat.1'' ''0000ff'' None) 1 (column [0]) None)
        (Some (treemap column [] (hierarchy 0 ?t)))]"
    unfolding callback_groups by (simp add: descendants_def each_Cons)
  then obtain g1 g2 where gs: "groups ?out = [g1, g2]"
    and g1: "group_datum g1 = Entry (treemap column [] (hierarchy 0 ?t)) None"
    and g2: "group_datum g2 = Entry (HNode (TreeData ''throat.1'' ''0000ff'' None) 1 (column [0]) None)
        (Some (treemap column [] (hierarchy 0 ?t)))"
    by auto
  from node_class_by_children [OF c] gs g1 g2
  have "group_class g1 = ''node node--internal''" and "group_class g2 = ''node node--leaf''"
    by simp_all
  with gs g1 g2 show ?thesis by simp
qed

text \<open>
  C8. For every query string, the variable \<open>file\<close> is the second token of the query
  string without its first character split at \<open>=\<close>: what follows the first \<open>=\<close> up
  to the next \<open>=\<close> or the end, and \<open>undefined\<close> when there is no \<open>=\<close>. Nothing is
  validated.
\<close>

theorem file_is_second_token:
  "file_param search =
     (if CHR ''='' \<in> set (drop 1 search)
      then Some (takeWhile (\<lambda>c. c \<noteq> CHR ''='')
                   (drop 1 (dropWhile (\<lambda>c. c \<noteq> CHR ''='') (drop 1 search))))
      else None)"
  unfolding file_param_def substring1_def by (rule index_split_1)

theorem file_is_second_token_witness:
  "file_param ''?file=net=1'' = Some ''net'' \<and> file_param ''?file'' = None"
  using file_is_second_token [of "''?file=net=1''"] file_is_second_token [of "''?file''"]
  by simp

text \<open>
  C9. After the run with initial time 0, final time 100, output interval 5 and step
  1, the algorithm holds under each of the keys \<open>pore.concentration@0\<close>, \<open>@5\<close>,
  \<open>@10\<close>, ..., \<open>@100\<close> the snapshot of its own time: the initial condition advanced
  by as many solver steps as the time counts (no further once the steady state is
  reached), with one value per pore. The keys of different times differ, so no
  snapshot overwrites another.
\<close>

theorem snapshot_every_five:
  "k \<le> 20 \<Longrightarrow>
   \<exists>props.
     run notebook_settings solve steady ic = Some props \<and>
     props (''pore.concentration@'' @ decimal (5 * k)) =
       Some (((\<lambda>c. map (solve c) [0 ..< length ic])
                ^^ (case steady of None \<Rightarrow> 5 * k | Some ts \<Rightarrow> min (5 * k) ts)) ic) \<and>
     length (((\<lambda>c. map (solve c) [0 ..< length ic])
                ^^ (case steady of None \<Rightarrow> 5 * k | Some ts \<Rightarrow> min (5 * k) ts)) ic) = length ic \<and>
     (\<forall>j. j \<noteq> k \<longrightarrow>
        ''pore.concentration@'' @ decimal (5 * j) \<noteq> ''pore.concentration@'' @ decimal (5 * k))"
proof -
  assume "k \<le> 20"
  then have in_times: "5 * k \<in> set (snapshot_times notebook_settings steady)"
    by (rule multiples_of_five)
  define key where "key t = quantity notebook_settings @ ''@'' @ decimal t" for t
  define props where
    "props = fold (\<lambda>t props. props(key t \<mapsto> solution notebook_settings solve steady ic t))
               (snapshot_times notebook_settings steady) Map.empty"
  have "t_step notebook_settings \<noteq> 0" by (simp add: notebook_settings_def)
  then have r: "run notebook_settings solve steady ic = Some props"
    by (simp add: run_def props_def key_def)
  have k: "key t = ''pore.concentration@'' @ decimal t" for t
    by (simp add: key_def notebook_settings_def)
  have inj: "t = 5 * k" if "key t = key (5 * k)" for t
    using that by (simp add: key_def decimal_inject)
  have "props (key (5 * k)) = Some (solution notebook_settings solve steady ic (5 * k))"
    unfolding props_def using in_times inj by (rule fold_stores_own)
  moreover have "solution notebook_settings solve steady ic (5 * k) =
      ((\<lambda>c. map (solve c) [0 ..< length ic])
                ^^ (case steady of None \<Rightarrow> 5 * k | Some ts \<Rightarrow> min (5 * k) ts)) ic"
    by (simp add: solution_def march_funpow notebook_settings_def)
  ultimately have p: "props (''pore.concentration@'' @ decimal (5 * k)) =
       Some (((\<lambda>c. map (solve c) [0 ..< length ic])
                ^^ (case steady of None \<Rightarrow> 5 * k | Some ts \<Rightarrow> min (5 * k) ts)) ic)"
    by (simp only: k)
  have l: "length (((\<lambda>c. map (solve c) [0 ..< length ic])
                ^^ (case steady of None \<Rightarrow> 5 * k | Some ts \<Rightarrow> min (5 * k) ts)) ic) = length ic"
    using length_march [of ic "length ic" solve] by (simp add: march_funpow)
  have d: "\<forall>j. j \<noteq> k \<longrightarrow>
        ''pore.concentration@'' @ decimal (5 * j) \<noteq> ''pore.concentration@'' @ decimal (5 * k)"
    by (auto dest: decimal_inject)
  from r p l d show ?thesis by (intro exI conjI)
qed

theorem snapshot_every_five_witness:
  "\<exists>props. run notebook_settings (\<lambda>c i. c ! i + 1) None [0, 0, 0 :: int] = Some props \<and>
           props ''pore.concentration@10'' = Some [10, 10, 10] \<and>
           ''pore.concentration@5'' \<noteq> ''pore.concentration@10''"
proof -
  have d: "decimal (5 * 2) = ''10''" "decimal (5 * 1) = ''5''" by code_simp+
  have v: "((\<lambda>c. map (\<lambda>i. c ! i + 1) [0 ..< length [0, 0, 0 :: int]]) ^^ (5 * 2)) [0, 0, 0 :: int]
      = [10, 10, 10]"
    by code_simp
  from snapshot_every_five [of 2 "\<lambda>c i. c ! i + 1" None "[0, 0, 0 :: int]"]
  obtain props where "run notebook_settings (\<lambda>c i. c ! i + 1) None [0, 0, 0 :: int] = Some props"
    and "props (''pore.concentration@'' @ decimal (5 * 2)) =
       Some (((\<lambda>c. map (\<lambda>i. c ! i + 1) [0 ..< length [0, 0, 0 :: int]]) ^^ (5 * 2)) [0, 0, 0])"
    by auto
  then have "run notebook_settings (\<lambda>c i. c ! i + 1) None [0, 0, 0 :: int] = Some props \<and>
           props ''pore.concentration@10'' = Some [10, 10, 10]"
    by (simp only: d v) simp
  then show ?thesis by auto
qed

text \<open>
  C10. Whether or not the script later throws, every link starts at the very
  position its own node is translated to and ends at the very position the parent
  of its node is translated to: the text of the two positions (layout \<open>y\<close> divided by
  two, then layout \<open>x\<close>) in the \<open>d\<close> attribute of the link is the text in the
  \<open>transform\<close> attributes of the two nodes.
\<close>

theorem link_meets_node_positions:
  assumes "callback ops lay (Inr t) = (e, out)" and "l \<in> set (links out)"
  shows "\<exists>gc gp ctrl.
           gc \<in> set (groups out) \<and> gp \<in> set (groups out) \<and>
           group_datum gc = link_datum l \<and>
           parent (link_datum l) = Some (self (group_datum gp)) \<and>
           transform gc = ''translate('' @ rendered_position ops (self (group_datum gc)) @ '')'' \<and>
           transform gp = ''translate('' @ rendered_position ops (self (group_datum gp)) @ '')'' \<and>
           link_d l = Some (''M'' @ rendered_position ops (self (group_datum gc))
                              @ ''C'' @ ctrl
                              @ '' '' @ rendered_position ops (self (group_datum gp)))"
proof -
  let ?rt = "treemap lay [] (hierarchy 0 t)"
  from assms(1) have out: "out = snd (callback ops lay (Inr t))" by simp
  have ds: "map group_datum (groups out) = descendants ?rt"
    unfolding out by (rule callback_groups)
  have ls: "links out =
     map (\<lambda>d. Link ''link'' (Some (curve ops (self d) (the (parent d)))) d)
       (drop 1 (descendants ?rt))"
    unfolding out by (rule callback_links)
  from assms(2) obtain d where l: "l = Link ''link'' (Some (curve ops (self d) (the (parent d)))) d"
    and d1: "d \<in> set (drop 1 (descendants ?rt))"
    unfolding ls by auto
  from d1 have d: "d \<in> set (descendants ?rt)" by (rule in_set_dropD)
  from tail_has_parent [OF d1] obtain p where p: "parent d = Some p" by auto
  from d have "d \<in> set (each [Entry ?rt None])" by (simp add: descendants_def)
  from each_parent_visited [OF this] p
  obtain d' where d': "d' \<in> set (descendants ?rt)" and pd: "parent d = Some (self d')"
    by (auto simp: descendants_def)
  from d ds obtain gc where gc: "gc \<in> set (groups out)" "group_datum gc = d"
    by (metis (no_types, lifting) imageE list.set_map)
  from d' ds obtain gp where gp: "gp \<in> set (groups out)" "group_datum gp = d'"
    by (metis (no_types, lifting) imageE list.set_map)
  have tc: "transform gc = ''translate('' @ rendered_position ops (self (group_datum gc)) @ '')''"
    using groups_pointwise(3) [OF assms(1) gc(1)] by (simp add: node_transform_position)
  have tp: "transform gp = ''translate('' @ rendered_position ops (self (group_datum gp)) @ '')''"
    using groups_pointwise(3) [OF assms(1) gp(1)] by (simp add: node_transform_position)
  define ctrl where
    "ctrl = str ops (half ops (add ops (half ops (y (self d))) (half ops (y (self d')))))
           @ '','' @ str ops (x (self d))
           @ '' '' @ str ops (half ops (add ops (half ops (y (self d))) (half ops (y (self d')))))
           @ '','' @ str ops (x (self d'))"
  have ld: "link_d l = Some (''M'' @ rendered_position ops (self (group_datum gc))
       @ ''C'' @ ctrl @ '' '' @ rendered_position ops (self (group_datum gp)))"
    using l p pd gc(2) gp(2) by (simp add: curve_def ctrl_def)
  show ?thesis
  proof (intro exI conjI)
    show "gc \<in> set (groups out)" by fact
    show "gp \<in> set (groups out)" by fact
    show "group_datum gc = link_datum l" using gc(2) l by simp
    show "parent (link_datum l) = Some (self (group_datum gp))" using pd gp(2) l by simp
    show "transform gc = ''translate('' @ rendered_position ops (self (group_datum gc)) @ '')''"
      by fact
    show "transform gp = ''translate('' @ rendered_position ops (self (group_datum gp)) @ '')''"
      by fact
    show "link_d l = Some (''M'' @ rendered_position ops (self (group_datum gc))
       @ ''C'' @ ctrl @ '' '' @ rendered_position ops (self (group_datum gp)))"
      by fact
  qed
qed

theorem link_meets_node_positions_witness:
  "(\<exists>gc gp ctrl.
      gc \<in> set (groups (snd (callback exact column
        (Inr (TreeData ''pore.0'' ''ff0000'' (Some [TreeData ''throat.1'' ''0000ff'' None])))))) \<and>
      gp \<in> set (groups (snd (callback exact column
        (Inr (TreeData ''pore.0'' ''ff0000'' (Some [TreeData ''throat.1'' ''0000ff'' None])))))) \<and>
      transform gc = ''translate(1445,475)'' \<and>
      transform gp = ''translate(0,475)'' \<and>
      map link_d (links (snd (callback exact column
        (Inr (TreeData ''pore.0'' ''ff0000'' (Some [TreeData ''throat.1'' ''0000ff'' None]))))))
        = [Some (''M'' @ ''1445,475'' @ ''C'' @ ctrl @ '' '' @ ''0,475'')])"
proof -
  let ?t = "TreeData ''pore.0'' ''ff0000'' (Some [TreeData ''throat.1'' ''0000ff'' None])"
  let ?leaf = "HNode (TreeData ''throat.1'' ''0000ff'' None) 1 (475, 2890) None"
  let ?top = "HNode (TreeData ''pore.0'' ''ff0000'' (Some [TreeData ''throat.1'' ''0000ff'' None]))
                0 (475, 0) (Some [?leaf])"
  let ?l = "Link ''link'' (Some ''M1445,475C722.5,475 722.5,475 0,475'')
              (Entry ?leaf (Some ?top)) :: rat link"
  let ?out = "snd (callback exact column (Inr ?t))"
  have c: "callback exact column (Inr ?t) = (None, ?out)"
    by (simp add: example_drawn)
  have l: "?l \<in> set (links ?out)"
    by (simp add: example_drawn)
  from link_meets_node_positions [OF c l]
  obtain gc gp ctrl where
    "gc \<in> set (groups ?out)" "gp \<in> set (groups ?out)"
    "group_datum gc = Entry ?leaf (Some ?top)"
    "Some ?top = Some (self (group_datum gp))"
    "transform gc = ''translate('' @ rendered_position exact (self (group_datum gc)) @ '')''"
    "transform gp = ''translate('' @ rendered_position exact (self (group_datum gp)) @ '')''"
    "Some ''M1445,475C722.5,475 722.5,475 0,475'' =
       Some (''M'' @ rendered_position exact (self (group_datum gc))
                              @ ''C'' @ ctrl
                              @ '' '' @ rendered_position exact (self (group_datum gp)))"
    by auto
  moreover have "rendered_position exact ?leaf = ''1445,475''"
    "rendered_position exact ?top = ''0,475''"
    by (simp_all add: rendered_position_def exact_def x_def y_def rat_str_values)
  ultimately have g: "gc \<in> set (groups ?out)" "gp \<in> set (groups ?out)"
    and t: "transform gc = ''translate(1445,475)''" "transform gp = ''translate(0,475)''"
    and m: "map link_d (links ?out)
      = [Some (''M'' @ ''1445,475'' @ ''C'' @ ctrl @ '' '' @ ''0,475'')]"
    by (simp_all add: example_drawn)
  show ?thesis
  proof (intro exI conjI)
    show "gc \<in> set (groups ?out)" by fact
    show "gp \<in> set (groups ?out)" by fact
    show "transform gc = ''translate(1445,475)''" by fact
    show "transform gp = ''translate(0,475)''" by fact
    show "map link_d (links ?out)
      = [Some (''M'' @ ''1445,475'' @ ''C'' @ ctrl @ '' '' @ ''0,475'')]" by fact
  qed
qed

end
